theory Spec2Isabelle
  imports Complex_Main "HOL-Library.Product_Lexorder" "HOL-Library.Multiset"
begin

section \<open>Root-cause ranking of the PetShop dataset: kstest.py and hollow\_rca.py\<close>

text \<open>
  The development embeds \<^verbatim>\<open>functional_analyze_root_causes\<close> (kstest.py) and
  \<^verbatim>\<open>analyze_root_causes\<close> (hollow\_rca.py). Both functions are glue around
  pandas, scikit-learn, scipy and numpy, so the model has three layers:
  \<^item> the values of a float column, with the special values of IEEE 754;
  \<^item> the few pandas and scikit-learn operations the code calls, each written out as a
    list function that follows the library's documented behaviour;
  \<^item> the two source functions, line by line over these operations.

  What the repository imports from modules that are not part of the two files
  (\<^verbatim>\<open>reduce_df\<close>, \<^verbatim>\<open>impute_df\<close>), the two-sample test of scipy, the iteration
  order of a Python set, the order a sort leaves where the values do not fix it, and
  the random generator of numpy are parameters of the model.
\<close>

subsection \<open>Float values\<close>

text \<open>
  A float is a real number or one of the special values \<open>inf\<close>, \<open>-inf\<close>, \<open>nan\<close>.
  Arithmetic on numbers is exact: rounding, overflow and the sign of zero are not
  modelled. The special values follow IEEE 754, which is what numpy computes for a
  float64 column (a division by zero is not an exception there): \<open>x / 0\<close> is \<open>inf\<close>
  or \<open>-inf\<close> by the sign of \<open>x\<close>, \<open>0 / 0\<close> is \<open>nan\<close>, and \<open>nan\<close> spreads through every
  operation.
\<close>

datatype fval = Fin real | PInf | NInf | NaN

fun is_nan :: "fval \<Rightarrow> bool" where
  "is_nan NaN = True"
| "is_nan _ = False"

fun is_inf :: "fval \<Rightarrow> bool" where
  "is_inf PInf = True"
| "is_inf NInf = True"
| "is_inf _ = False"

fun fneg :: "fval \<Rightarrow> fval" where
  "fneg (Fin a) = Fin (- a)"
| "fneg PInf = NInf"
| "fneg NInf = PInf"
| "fneg NaN = NaN"

fun fadd :: "fval \<Rightarrow> fval \<Rightarrow> fval" where
  "fadd NaN _ = NaN"
| "fadd _ NaN = NaN"
| "fadd (Fin a) (Fin b) = Fin (a + b)"
| "fadd PInf NInf = NaN"
| "fadd NInf PInf = NaN"
| "fadd PInf _ = PInf"
| "fadd _ PInf = PInf"
| "fadd NInf _ = NInf"
| "fadd _ NInf = NInf"

definition fsub :: "fval \<Rightarrow> fval \<Rightarrow> fval" where
  "fsub a b = fadd a (fneg b)"

text \<open>The sign of a value that is not \<open>nan\<close>: 1, 0 or -1.\<close>

fun fsign :: "fval \<Rightarrow> int" where
  "fsign (Fin a) = (if 0 < a then 1 else if a < 0 then - 1 else 0)"
| "fsign PInf = 1"
| "fsign NInf = - 1"
| "fsign NaN = 0"

definition signed_inf :: "int \<Rightarrow> fval" where
  "signed_inf s = (if 0 < s then PInf else if s < 0 then NInf else NaN)"

fun fmul :: "fval \<Rightarrow> fval \<Rightarrow> fval" where
  "fmul NaN _ = NaN"
| "fmul _ NaN = NaN"
| "fmul (Fin a) (Fin b) = Fin (a * b)"
| "fmul a b = signed_inf (fsign a * fsign b)"

fun fdiv :: "fval \<Rightarrow> fval \<Rightarrow> fval" where
  "fdiv NaN _ = NaN"
| "fdiv _ NaN = NaN"
| "fdiv (Fin a) (Fin b) = (if b = 0 then signed_inf (fsign (Fin a)) else Fin (a / b))"
| "fdiv (Fin a) _ = Fin 0"
| "fdiv a (Fin b) = signed_inf (fsign a * (if b < 0 then - 1 else 1))"
| "fdiv _ _ = NaN"

text \<open>The comparisons of IEEE 754: every comparison with \<open>nan\<close> is false.\<close>

fun flt :: "fval \<Rightarrow> fval \<Rightarrow> bool" where
  "flt NaN _ = False"
| "flt _ NaN = False"
| "flt (Fin a) (Fin b) = (a < b)"
| "flt NInf NInf = False"
| "flt NInf _ = True"
| "flt _ NInf = False"
| "flt PInf _ = False"
| "flt _ PInf = True"

fun fge :: "fval \<Rightarrow> fval \<Rightarrow> bool" where
  "fge NaN _ = False"
| "fge _ NaN = False"
| "fge a b = (\<not> flt a b)"

subsection \<open>Tables and series\<close>

text \<open>
  A pandas DataFrame of floats is kept by column: its number of rows and its columns
  in order, each a label with the values of its rows. A frame with no column still
  has a number of rows. A Series indexed by column labels (a row of a frame, or one
  value per column) is a list of labelled values.
\<close>

record table =
  nrows :: nat
  cols :: "(string \<times> fval list) list"

type_synonym series = "(string \<times> fval) list"

datatype error = ValueError | IndexError | KeyError

definition columns :: "table \<Rightarrow> string list" where
  "columns t = map fst (cols t)"

text \<open>
  The frames the code works on: the labels are unique and every column has one value
  per row.
\<close>

definition wf_table :: "table \<Rightarrow> bool" where
  "wf_table t = (distinct (columns t) \<and> list_all (\<lambda>cv. length (snd cv) = nrows t) (cols t))"

text \<open>\<^verbatim>\<open>df[c]\<close>: the values of the column labelled \<open>c\<close>, KeyError when there is none.\<close>

definition column :: "table \<Rightarrow> string \<Rightarrow> error + fval list" where
  "column t c = (case map_of (cols t) c of None \<Rightarrow> Inl KeyError | Some vs \<Rightarrow> Inr vs)"

text \<open>
  \<^verbatim>\<open>df.loc[:, cs]\<close> with a list of labels: the columns named, in the order of the
  list; KeyError when a label is not a column of the frame.
\<close>

definition loc_cols :: "table \<Rightarrow> string list \<Rightarrow> error + table" where
  "loc_cols t cs =
     (if list_all (\<lambda>c. c \<in> set (columns t)) cs
      then Inr (t\<lparr>cols := map (\<lambda>c. (c, case map_of (cols t) c of Some vs \<Rightarrow> vs | None \<Rightarrow> [])) cs\<rparr>)
      else Inl KeyError)"

text \<open>
  \<^verbatim>\<open>pd.concat([a, b], ignore_index=True)\<close>: the rows of \<open>a\<close>, then the rows of \<open>b\<close>.
  The columns are the labels of \<open>a\<close> followed by those only \<open>b\<close> has; a frame that
  lacks a column contributes \<open>nan\<close> for its rows.
\<close>

definition values_or_nan :: "table \<Rightarrow> string \<Rightarrow> fval list" where
  "values_or_nan t c = (case map_of (cols t) c of Some vs \<Rightarrow> vs | None \<Rightarrow> replicate (nrows t) NaN)"

definition pd_concat :: "table \<Rightarrow> table \<Rightarrow> table" where
  "pd_concat a b =
     \<lparr>nrows = nrows a + nrows b,
      cols = map (\<lambda>c. (c, values_or_nan a c @ values_or_nan b c))
               (columns a @ filter (\<lambda>c. c \<notin> set (columns a)) (columns b))\<rparr>"

text \<open>\<^verbatim>\<open>df.tail(n)\<close>: the last \<open>n\<close> rows, all rows when there are fewer.\<close>

definition tail :: "nat \<Rightarrow> table \<Rightarrow> table" where
  "tail n t = \<lparr>nrows = min n (nrows t), cols = map (\<lambda>(c, vs). (c, drop (length vs - n) vs)) (cols t)\<rparr>"

text \<open>
  \<^verbatim>\<open>df.iloc[i]\<close>: row \<open>i\<close> as a series over the column labels; a negative \<open>i\<close> counts
  from the end; IndexError out of range.
\<close>

definition iloc :: "table \<Rightarrow> int \<Rightarrow> error + series" where
  "iloc t i =
     (let n = int (nrows t); j = (if i < 0 then n + i else i)
      in if 0 \<le> j \<and> j < n then Inr (map (\<lambda>(c, vs). (c, vs ! nat j)) (cols t)) else Inl IndexError)"

text \<open>
  Arithmetic of two series over the same index goes label by label, and a scalar is
  applied to every entry.
\<close>

definition series_binop :: "(fval \<Rightarrow> fval \<Rightarrow> fval) \<Rightarrow> series \<Rightarrow> series \<Rightarrow> series" where
  "series_binop f a b = map (\<lambda>((c, x), (_, y)). (c, f x y)) (zip a b)"

definition series_scalar :: "(fval \<Rightarrow> fval \<Rightarrow> fval) \<Rightarrow> series \<Rightarrow> fval \<Rightarrow> series" where
  "series_scalar f a k = map (\<lambda>(c, x). (c, f x k)) a"

subsection \<open>MinMaxScaler\<close>

text \<open>
  \<^verbatim>\<open>MinMaxScaler().fit_transform(df)\<close> of scikit-learn, with the default range
  \<open>(0, 1)\<close>. Input validation raises ValueError for a frame with no row, for a frame
  with no column and for an infinite entry; \<open>nan\<close> is accepted, left out of the
  minimum and the maximum of its column (\<^verbatim>\<open>np.nanmin\<close>, \<^verbatim>\<open>np.nanmax\<close>) and kept by
  the transformation. Per column the scaler computes
  \<^verbatim>\<open>scale_ = (1 - 0) / _handle_zeros_in_scale(data_max - data_min)\<close> and
  \<^verbatim>\<open>min_ = 0 - data_min * scale_\<close>, and maps \<open>x\<close> to \<^verbatim>\<open>x * scale_ + min_\<close>;
  \<^verbatim>\<open>_handle_zeros_in_scale\<close> replaces a range of zero by one (recent versions
  also a range below ten machine epsilons; the numbers of the model are exact and
  have no epsilon).
\<close>

definition nanmin :: "fval list \<Rightarrow> fval" where
  "nanmin vs =
     (case filter (\<lambda>v. \<not> is_nan v) vs of
        [] \<Rightarrow> NaN
      | x # xs \<Rightarrow> fold (\<lambda>v m. if flt v m then v else m) xs x)"

definition nanmax :: "fval list \<Rightarrow> fval" where
  "nanmax vs =
     (case filter (\<lambda>v. \<not> is_nan v) vs of
        [] \<Rightarrow> NaN
      | x # xs \<Rightarrow> fold (\<lambda>v m. if flt m v then v else m) xs x)"

definition handle_zeros_in_scale :: "fval \<Rightarrow> fval" where
  "handle_zeros_in_scale s = (if s = Fin 0 then Fin 1 else s)"

definition scale_column :: "fval list \<Rightarrow> fval list" where
  "scale_column vs =
     (let data_min = nanmin vs;
          data_max = nanmax vs;
          data_range = fsub data_max data_min;
          scale = fdiv (fsub (Fin 1) (Fin 0)) (handle_zeros_in_scale data_range);
          min_shift = fsub (Fin 0) (fmul data_min scale)
      in map (\<lambda>x. fadd (fmul x scale) min_shift) vs)"

definition fit_transform :: "table \<Rightarrow> error + table" where
  "fit_transform t =
     (if list_ex (\<lambda>cv. list_ex is_inf (snd cv)) (cols t) then Inl ValueError
      else if nrows t = 0 then Inl ValueError
      else if cols t = [] then Inl ValueError
      else Inr (t\<lparr>cols := map (\<lambda>(c, vs). (c, scale_column vs)) (cols t)\<rparr>))"

subsection \<open>Sorting\<close>

text \<open>
  \<^verbatim>\<open>Series.sort_values(ascending=False)\<close> puts the numbers in descending order
  (\<open>inf\<close> first, \<open>-inf\<close> last) and every \<open>nan\<close> after them, the \<open>nan\<close> entries in
  the order they had. The key \<open>desc_key\<close> turns that order into an ascending one on
  pairs, compared lexicographically, so that the library's \<open>sort_key\<close> computes it.
  pandas sorts with quicksort, which is not stable: the order it leaves among equal
  numbers is not fixed by the values. That order is the parameter \<open>tie\<close>, a rank of
  the labels that decides among equal numbers; since the labels of a series are
  distinct, every order among equal numbers is the order of some rank.
\<close>

fun desc_key :: "fval \<Rightarrow> nat \<times> real" where
  "desc_key PInf = (0, 0)"
| "desc_key (Fin a) = (1, - a)"
| "desc_key NInf = (2, 0)"
| "desc_key NaN = (3, 0)"

definition sort_values_desc :: "(string \<Rightarrow> nat) \<Rightarrow> series \<Rightarrow> series" where
  "sort_values_desc tie s =
     sort_key (\<lambda>cv. (desc_key (snd cv), if is_nan (snd cv) then 0 else tie (fst cv))) s"

text \<open>
  \<^verbatim>\<open>sorted(d.items(), key=lambda item: item[1], reverse=True)\<close>: Python's sort is
  stable, also with \<^verbatim>\<open>reverse=True\<close>, so on keys none of which is \<open>nan\<close> the result
  is the stable descending sort. Every comparison with \<open>nan\<close> is false, so with a
  \<open>nan\<close> among the keys the result is a rearrangement of the items that depends on
  the comparisons the algorithm happens to make (and they differ between versions of
  CPython); it is not sorted. That rearrangement is the parameter \<open>nan_rank\<close>, a rank
  of the labels: the items are distinct in their labels, so every rearrangement is the
  order of some rank.
\<close>

definition sorted_desc :: "(string \<Rightarrow> nat) \<Rightarrow> (string \<times> fval) list \<Rightarrow> (string \<times> fval) list" where
  "sorted_desc nan_rank items =
     (if list_ex (\<lambda>item. is_nan (snd item)) items
      then sort_key (\<lambda>item. nan_rank (fst item)) items
      else sort_key (\<lambda>item. desc_key (snd item)) items)"

text \<open>
  A Python dict keeps its keys in the order of their first insertion; assigning to a
  key that is present replaces its value in place.
\<close>

fun dict_set :: "('k \<times> 'v) list \<Rightarrow> 'k \<Rightarrow> 'v \<Rightarrow> ('k \<times> 'v) list" where
  "dict_set [] k v = [(k, v)]"
| "dict_set ((k', v') # d) k v = (if k' = k then (k, v) # d else (k', v') # dict_set d k v)"

subsection \<open>The parameters\<close>

text \<open>
  \<^item> \<open>reduce_df\<close> is imported from \<^verbatim>\<open>data_preprocessing\<close>, which is not among the
    source files: it maps a raw metrics table, a metric and a statistic to the reduced
    table with one column per node.
  \<^item> \<open>set_order\<close> fixes the order in which Python iterates over a set of column
    labels: \<^verbatim>\<open>list(s)\<close> lists the elements of \<open>s\<close> by ascending \<open>set_order\<close>. The three
    sets the function lists are disjoint, so every choice of three orders is covered.
  \<^item> \<open>ks_2samp\<close> is the statistic of scipy's two-sample Kolmogorov-Smirnov test on
    the values of two columns.
  \<^item> \<open>tie_order\<close> is the order pandas' quicksort leaves among equal changes, and
    \<open>nan_order\<close> the order Python's sort leaves the scored candidates in when a score
    is \<open>nan\<close> (see the two sorts above).
  The parameters are functions: a call of \<^verbatim>\<open>reduce_df\<close> or \<^verbatim>\<open>ks_2samp\<close> that
  raises is outside the model.
\<close>

record 'raw env =
  reduce_df :: "'raw \<Rightarrow> string \<Rightarrow> string \<Rightarrow> table"
  set_order :: "string \<Rightarrow> nat"
  ks_2samp :: "fval list \<Rightarrow> fval list \<Rightarrow> fval"
  tie_order :: "string \<Rightarrow> nat"
  nan_order :: "string \<Rightarrow> nat"

definition set_list :: "(string \<Rightarrow> nat) \<Rightarrow> string list \<Rightarrow> string list" where
  "set_list h xs = sort_key h (remdups xs)"

subsection \<open>kstest.py: functional\_analyze\_root\_causes\<close>

text \<open>
  Modelled from the spec: \<^verbatim>\<open>PotentialRootCause\<close> is imported from \<^verbatim>\<open>rca_task\<close>,
  which is not among the source files; the spec gives it as an immutable triple of a
  node, a metric and a score, and the code constructs it from the three in this order.
\<close>

record root_cause =
  node :: string
  metric :: string
  score :: fval

text \<open>The three messages the function prints.\<close>

datatype diag =
  MissingInAbnormal "string list"
| MissingInNormal "string list"
| PetSiteNotFound

definition petsite_column :: string where
  "petsite_column = ''PetSite''"

text \<open>Lines 30 to 39: the common columns, the two differences and their messages.\<close>

definition common_columns :: "'raw env \<Rightarrow> table \<Rightarrow> table \<Rightarrow> string list" where
  "common_columns env normal abnormal =
     set_list (set_order env) (filter (\<lambda>c. c \<in> set (columns abnormal)) (columns normal))"

definition missing_in_abnormal :: "'raw env \<Rightarrow> table \<Rightarrow> table \<Rightarrow> string list" where
  "missing_in_abnormal env normal abnormal =
     set_list (set_order env) (filter (\<lambda>c. c \<notin> set (columns abnormal)) (columns normal))"

definition missing_in_normal :: "'raw env \<Rightarrow> table \<Rightarrow> table \<Rightarrow> string list" where
  "missing_in_normal env normal abnormal =
     set_list (set_order env) (filter (\<lambda>c. c \<notin> set (columns normal)) (columns abnormal))"

definition diagnostics :: "'raw env \<Rightarrow> table \<Rightarrow> table \<Rightarrow> diag list" where
  "diagnostics env normal abnormal =
     (if missing_in_abnormal env normal abnormal \<noteq> []
      then [MissingInAbnormal (missing_in_abnormal env normal abnormal)] else []) @
     (if missing_in_normal env normal abnormal \<noteq> []
      then [MissingInNormal (missing_in_normal env normal abnormal)] else [])"

text \<open>Lines 42 to 51: restrict both tables, concatenate, scale, keep the last 5 rows.\<close>

definition window :: "'raw env \<Rightarrow> table \<Rightarrow> table \<Rightarrow> error + table" where
  "window env normal abnormal =
     (let common = common_columns env normal abnormal in
      case loc_cols normal common of
        Inl e \<Rightarrow> Inl e
      | Inr normal_metrics \<Rightarrow>
          (case loc_cols abnormal common of
             Inl e \<Rightarrow> Inl e
           | Inr abnormal_metrics \<Rightarrow>
               (case fit_transform (pd_concat normal_metrics abnormal_metrics) of
                  Inl e \<Rightarrow> Inl e
                | Inr result_df \<Rightarrow> Inr (tail 5 result_df))))"

text \<open>Lines 54 to 60: the percentage change of every column over the window.\<close>

definition percentage_change :: "string \<Rightarrow> table \<Rightarrow> error + series" where
  "percentage_change target_metric result_df =
     (case iloc result_df 0 of
        Inl e \<Rightarrow> Inl e
      | Inr row0 \<Rightarrow>
          (case iloc result_df (- 1) of
             Inl e \<Rightarrow> Inl e
           | Inr row1 \<Rightarrow>
               Inr (if target_metric = ''availability''
                    then series_scalar fmul (series_binop fdiv (series_binop fsub row0 row1) row0) (Fin 100)
                    else series_scalar fmul (series_binop fdiv (series_binop fsub row1 row0) row0) (Fin 100))))"

text \<open>Lines 64 and 65: sort by the change, descending, and keep the first 10 labels.\<close>

definition top_columns_percentage :: "'raw env \<Rightarrow> series \<Rightarrow> string list" where
  "top_columns_percentage env pc = map fst (take 10 (sort_values_desc (tie_order env) pc))"

text \<open>Lines 78 to 88: the loop that fills \<^verbatim>\<open>ks_scores\<close>.\<close>

fun ks_loop ::
  "'raw env \<Rightarrow> table \<Rightarrow> fval list \<Rightarrow> string list \<Rightarrow> (string \<times> fval) list \<Rightarrow> error + (string \<times> fval) list"
where
  "ks_loop env result_df petsite_data [] ks_scores = Inr ks_scores"
| "ks_loop env result_df petsite_data (c # cs) ks_scores =
     (if c = petsite_column then ks_loop env result_df petsite_data cs ks_scores
      else case column result_df c of
             Inl e \<Rightarrow> Inl e
           | Inr column_data \<Rightarrow>
               ks_loop env result_df petsite_data cs
                 (dict_set ks_scores c (fdiv (Fin 1) (fadd (Fin 1) (ks_2samp env petsite_data column_data)))))"

text \<open>Lines 53 to 105 on the window: what is printed, and the result or the error.\<close>

definition rank_window :: "'raw env \<Rightarrow> string \<Rightarrow> table \<Rightarrow> diag list \<times> (error + root_cause list)" where
  "rank_window env target_metric result_df =
     (case percentage_change target_metric result_df of
        Inl e \<Rightarrow> ([], Inl e)
      | Inr pc \<Rightarrow>
          if petsite_column \<notin> set (columns result_df) then ([PetSiteNotFound], Inr [])
          else
            (case column result_df petsite_column of
               Inl e \<Rightarrow> ([], Inl e)
             | Inr petsite_data \<Rightarrow>
                 (case ks_loop env result_df petsite_data (top_columns_percentage env pc) [] of
                    Inl e \<Rightarrow> ([], Inl e)
                  | Inr ks_scores \<Rightarrow>
                      ([], Inr (map (\<lambda>(root_cause, s). \<lparr>node = root_cause, metric = target_metric, score = s\<rparr>)
                                  (sorted_desc (nan_order env) ks_scores))))))"

text \<open>
  The whole function. The graph and the target node are taken and not used, as in
  the source. The result pairs what was printed with the list returned or the
  exception raised.
\<close>

definition functional_analyze_root_causes ::
  "'raw env \<Rightarrow> 'graph \<Rightarrow> string \<Rightarrow> string \<Rightarrow> string \<Rightarrow> 'raw \<Rightarrow> 'raw \<Rightarrow> diag list \<times> (error + root_cause list)"
where
  "functional_analyze_root_causes env graph target_node target_metric target_statistic normal_raw abnormal_raw =
     (let normal_metrics = reduce_df env normal_raw target_metric target_statistic;
          abnormal_metrics = reduce_df env abnormal_raw target_metric target_statistic;
          printed = diagnostics env normal_metrics abnormal_metrics
      in case window env normal_metrics abnormal_metrics of
           Inl e \<Rightarrow> (printed, Inl e)
         | Inr result_df \<Rightarrow>
             (case rank_window env target_metric result_df of
                (printed2, r) \<Rightarrow> (printed @ printed2, r)))"

subsection \<open>hollow\_rca.py: analyze\_root\_causes\<close>

text \<open>
  The parameters of the stub: \<open>hollow_reduce_df\<close> and \<open>impute_df\<close> are imported from
  \<^verbatim>\<open>data_preprocessing\<close> (\<open>impute_df\<close> works in place; the model returns the
  table), and \<open>random_rand\<close> is \<^verbatim>\<open>np.random.rand()\<close>: it takes the state of numpy's
  generator and returns a number with the next state. The two preprocessing functions
  return and do not touch the generator.
\<close>

record ('raw, 'rng) hollow_env =
  hollow_reduce_df :: "'raw \<Rightarrow> string \<Rightarrow> string \<Rightarrow> table"
  impute_df :: "table \<Rightarrow> string \<Rightarrow> table"
  random_rand :: "'rng \<Rightarrow> real \<times> 'rng"

text \<open>
  Lines 53 to 55: \<^verbatim>\<open>for _ in range(root_cause_top_k)\<close> appends one entry per round;
  the first argument counts the rounds that are left.
\<close>

fun simulate ::
  "nat \<Rightarrow> ('rng \<Rightarrow> real \<times> 'rng) \<Rightarrow> string \<Rightarrow> string \<Rightarrow> root_cause list \<Rightarrow> 'rng \<Rightarrow> root_cause list \<times> 'rng"
where
  "simulate 0 rand target_node target_metric simulated_causes g = (simulated_causes, g)"
| "simulate (Suc n) rand target_node target_metric simulated_causes g =
     (case rand g of
        (r, g') \<Rightarrow>
          simulate n rand target_node target_metric
            (simulated_causes @ [\<lparr>node = target_node, metric = target_metric, score = Fin r\<rparr>]) g')"

text \<open>
  \<^verbatim>\<open>make_hollow_rca(root_cause_top_k, imputation_method)\<close> returns the function below
  with the two arguments fixed. \<^verbatim>\<open>range(k)\<close> has \<open>nat k\<close> elements: none when the
  Python integer \<open>k\<close> is negative. The result pairs the list returned with the state
  of the generator after the call.
\<close>

definition analyze_root_causes ::
  "('raw, 'rng) hollow_env \<Rightarrow> int \<Rightarrow> string \<Rightarrow> 'graph \<Rightarrow> string \<Rightarrow> string \<Rightarrow> string \<Rightarrow> 'raw \<Rightarrow> 'raw \<Rightarrow> 'rng
     \<Rightarrow> root_cause list \<times> 'rng"
where
  "analyze_root_causes henv root_cause_top_k imputation_method graph target_node target_metric
       target_statistic normal_metrics abnormal_metrics g =
     (let normal_reduced = hollow_reduce_df henv normal_metrics target_metric target_statistic;
          abnormal_reduced = hollow_reduce_df henv abnormal_metrics target_metric target_statistic;
          normal_imputed = impute_df henv normal_reduced imputation_method;
          abnormal_imputed = impute_df henv abnormal_reduced imputation_method
      in simulate (nat root_cause_top_k) (random_rand henv) target_node target_metric [] g)"

subsection \<open>The order of the change filter\<close>

text \<open>
  \<open>change_ge a b\<close>: \<open>a\<close> comes no later than \<open>b\<close> in the order of
  \<^verbatim>\<open>sort_values(ascending=False)\<close>. On numbers it is \<open>b \<le> a\<close>; every value is at
  least \<open>nan\<close>.
\<close>

definition change_ge :: "fval \<Rightarrow> fval \<Rightarrow> bool" where
  "change_ge a b = (desc_key a \<le> desc_key b)"

subsection \<open>Instances for the examples\<close>

text \<open>
  An instance of the parameters: the tables are given reduced, the labels of a set
  are listed by length, and the test statistic is the largest distance between the
  empirical distribution functions of two samples of numbers, \<open>nan\<close> when a sample
  holds a \<open>nan\<close>. Equal changes stay in column order, and scored candidates with a
  \<open>nan\<close> among their scores stay in their order of insertion, which is what CPython
  returns for two items.
\<close>

definition reals_of :: "fval list \<Rightarrow> real list" where
  "reals_of vs = List.concat (map (\<lambda>v. case v of Fin a \<Rightarrow> [a] | _ \<Rightarrow> []) vs)"

definition ecdf :: "real list \<Rightarrow> real \<Rightarrow> real" where
  "ecdf xs v = real (length (filter (\<lambda>x. x \<le> v) xs)) / real (length xs)"

definition ks_statistic :: "fval list \<Rightarrow> fval list \<Rightarrow> fval" where
  "ks_statistic xs ys =
     (if list_ex (\<lambda>v. is_nan v \<or> is_inf v) (xs @ ys) \<or> xs = [] \<or> ys = [] then NaN
      else Fin (fold max (map (\<lambda>v. \<bar>ecdf (reals_of xs) v - ecdf (reals_of ys) v\<bar>) (reals_of (xs @ ys))) 0))"

definition ex_env :: "table env" where
  "ex_env =
     \<lparr>reduce_df = (\<lambda>t m s. t), set_order = length, ks_2samp = ks_statistic,
      tie_order = (\<lambda>c. 0), nan_order = (\<lambda>c. 0)\<rparr>"

definition ex_normal :: table where
  "ex_normal =
     \<lparr>nrows = 2,
      cols = [(''PetSite'', [Fin 1, Fin 2]), (''A'', [Fin 5, Fin 5]), (''B'', [Fin 0, Fin 1])]\<rparr>"

definition ex_abnormal :: table where
  "ex_abnormal =
     \<lparr>nrows = 4,
      cols = [(''B'', [Fin 8, Fin 6, Fin 2, Fin 4]), (''PetSite'', [Fin 4, Fin 5, Fin 3, Fin 6]),
              (''A'', [Fin 5, Fin 5, Fin 5, Fin 5]), (''C'', [Fin 5, Fin 5, Fin 7, Fin 5])]\<rparr>"

text \<open>The window of the two tables: the last 5 of the 6 scaled rows.\<close>

definition ex_window :: table where
  "ex_window =
     \<lparr>nrows = 5,
      cols = [(''A'', [Fin 0, Fin 0, Fin 0, Fin 0, Fin 0]),
              (''B'', [Fin (1 / 8), Fin 1, Fin (3 / 4), Fin (1 / 4), Fin (1 / 2)]),
              (''PetSite'', [Fin (1 / 5), Fin (3 / 5), Fin (4 / 5), Fin (2 / 5), Fin 1])]\<rparr>"

text \<open>
  A table whose three columns get the same scaled values: 4 combined rows with itself,
  and zeros in the first row of the window.
\<close>

definition ex_tie :: table where
  "ex_tie =
     \<lparr>nrows = 2,
      cols = [(''PetSite'', [Fin 1, Fin 2]), (''X'', [Fin 3, Fin 5]), (''Y'', [Fin 2, Fin 6])]\<rparr>"

text \<open>
  Tables whose candidates \<open>P\<close> and \<open>Q\<close> get the same score and \<open>R\<close> a higher one,
  with four different changes; and the window of the two.
\<close>

definition ex_rank_normal :: table where
  "ex_rank_normal =
     \<lparr>nrows = 3,
      cols = [(''PetSite'', [Fin 1, Fin 2, Fin 3]), (''P'', [Fin 0, Fin 1, Fin 8]),
              (''Q'', [Fin 0, Fin 4, Fin 8]), (''R'', [Fin 1, Fin 3, Fin 2])]\<rparr>"

definition ex_rank_abnormal :: table where
  "ex_rank_abnormal =
     \<lparr>nrows = 3,
      cols = [(''PetSite'', [Fin 4, Fin 5, Fin 6]), (''P'', [Fin 6, Fin 2, Fin 4]),
              (''Q'', [Fin 6, Fin 1, Fin 2]), (''R'', [Fin 4, Fin 6, Fin 5])]\<rparr>"

definition ex_rank_window :: table where
  "ex_rank_window =
     \<lparr>nrows = 5,
      cols = [(''P'', [Fin (1 / 8), Fin 1, Fin (3 / 4), Fin (1 / 4), Fin (1 / 2)]),
              (''Q'', [Fin (1 / 2), Fin 1, Fin (3 / 4), Fin (1 / 8), Fin (1 / 4)]),
              (''R'', [Fin (2 / 5), Fin (1 / 5), Fin (3 / 5), Fin 1, Fin (4 / 5)]),
              (''PetSite'', [Fin (1 / 5), Fin (2 / 5), Fin (3 / 5), Fin (4 / 5), Fin 1])]\<rparr>"

text \<open>Tables with a missing value in the column \<open>X\<close>.\<close>

definition ex_nan_normal :: table where
  "ex_nan_normal =
     \<lparr>nrows = 3,
      cols = [(''PetSite'', [Fin 1, Fin 2, Fin 3]), (''X'', [Fin 0, Fin 1, NaN]),
              (''Y'', [Fin 0, Fin 2, Fin 1])]\<rparr>"

definition ex_nan_abnormal :: table where
  "ex_nan_abnormal =
     \<lparr>nrows = 3,
      cols = [(''PetSite'', [Fin 4, Fin 5, Fin 6]), (''X'', [Fin 2, Fin 3, Fin 4]),
              (''Y'', [Fin 8, Fin 3, Fin 4])]\<rparr>"

text \<open>The changes of twelve columns, with special values among them.\<close>

definition ex_changes :: series where
  "ex_changes =
     [(''c01'', Fin 3), (''c02'', NaN), (''c03'', PInf), (''c04'', Fin (- 2)), (''c05'', Fin 7),
      (''c06'', NInf), (''c07'', Fin 0), (''c08'', Fin 6), (''c09'', Fin 1), (''c10'', Fin 5),
      (''c11'', NaN), (''c12'', Fin 4)]"

text \<open>A combined table with a constant column.\<close>

definition ex_combined :: table where
  "ex_combined =
     \<lparr>nrows = 3, cols = [(''PetSite'', [Fin 1, Fin 2, Fin 4]), (''A'', [Fin 5, Fin 5, Fin 5])]\<rparr>"

text \<open>Tables without the reference column, without columns, and without rows.\<close>

definition ex_only_a :: table where
  "ex_only_a = \<lparr>nrows = 1, cols = [(''A'', [Fin 1])]\<rparr>"

definition ex_only_b :: table where
  "ex_only_b = \<lparr>nrows = 1, cols = [(''B'', [Fin 2])]\<rparr>"

definition ex_only_c :: table where
  "ex_only_c = \<lparr>nrows = 1, cols = [(''C'', [Fin 2])]\<rparr>"

definition ex_a_b :: table where
  "ex_a_b = \<lparr>nrows = 1, cols = [(''A'', [Fin 3]), (''B'', [Fin 4])]\<rparr>"

definition ex_no_columns :: table where
  "ex_no_columns = \<lparr>nrows = 1, cols = []\<rparr>"

definition ex_no_rows :: table where
  "ex_no_rows = \<lparr>nrows = 0, cols = [(''PetSite'', []), (''A'', [])]\<rparr>"

text \<open>
  An instance of the stub's parameters: the generator's state is a counter, and the
  number drawn is its reciprocal.
\<close>

definition ex_henv :: "(table, nat) hollow_env" where
  "ex_henv =
     \<lparr>hollow_reduce_df = (\<lambda>t m s. t), impute_df = (\<lambda>t m. t),
      random_rand = (\<lambda>g. (1 / real (g + 2), Suc g))\<rparr>"

section \<open>Properties\<close>

subsection \<open>The stub\<close>

lemma simulate_length:
  "length (fst (simulate n rand tn tm acc g)) = length acc + n"
  by (induction n arbitrary: acc g) (auto split: prod.splits)

lemma simulate_entries:
  "list_all (\<lambda>p. node p = tn \<and> metric p = tm) acc \<Longrightarrow>
   list_all (\<lambda>p. node p = tn \<and> metric p = tm) (fst (simulate n rand tn tm acc g))"
  by (induction n arbitrary: acc g) (auto split: prod.splits)

text \<open>
  C10. For a count \<open>root_cause_top_k\<close> (an integer that is not negative; 3 by
  default) the stub returns exactly \<open>root_cause_top_k\<close> entries; every entry has the
  target node and the target metric; and the list (with it the scores) is the same
  for any two pairs of metric tables, given the same state of the generator.
\<close>

theorem hollow_returns_top_k:
  assumes "0 \<le> root_cause_top_k"
  shows "int (length (fst (analyze_root_causes henv root_cause_top_k imputation_method graph
       target_node target_metric target_statistic normal_metrics abnormal_metrics g)))
     = root_cause_top_k
   \<and> list_all (\<lambda>p. node p = target_node \<and> metric p = target_metric)
       (fst (analyze_root_causes henv root_cause_top_k imputation_method graph target_node
          target_metric target_statistic normal_metrics abnormal_metrics g))
   \<and> analyze_root_causes henv root_cause_top_k imputation_method graph target_node
       target_metric target_statistic normal_metrics' abnormal_metrics' g
     = analyze_root_causes henv root_cause_top_k imputation_method graph target_node
       target_metric target_statistic normal_metrics abnormal_metrics g"
  using assms by (simp add: analyze_root_causes_def simulate_length simulate_entries)

theorem hollow_returns_top_k_witness:
  "(0 :: int) \<le> 3
   \<and> fst (analyze_root_causes ex_henv 3 ''mean'' () ''PetSite'' ''latency'' ''Average''
          ex_normal ex_abnormal 0)
     = [\<lparr>node = ''PetSite'', metric = ''latency'', score = Fin (1 / 2)\<rparr>,
        \<lparr>node = ''PetSite'', metric = ''latency'', score = Fin (1 / 3)\<rparr>,
        \<lparr>node = ''PetSite'', metric = ''latency'', score = Fin (1 / 4)\<rparr>]
   \<and> int (length (fst (analyze_root_causes ex_henv 3 ''mean'' () ''PetSite'' ''latency'' ''Average''
          ex_normal ex_abnormal 0))) = 3
   \<and> analyze_root_causes ex_henv 3 ''mean'' () ''PetSite'' ''latency'' ''Average''
          ex_only_a ex_only_b 0
     = analyze_root_causes ex_henv 3 ''mean'' () ''PetSite'' ''latency'' ''Average''
          ex_normal ex_abnormal 0"
proof -
  have k: "(0 :: int) \<le> 3" by simp
  have e: "fst (analyze_root_causes ex_henv 3 ''mean'' () ''PetSite'' ''latency'' ''Average''
          ex_normal ex_abnormal 0)
     = [\<lparr>node = ''PetSite'', metric = ''latency'', score = Fin (1 / 2)\<rparr>,
        \<lparr>node = ''PetSite'', metric = ''latency'', score = Fin (1 / 3)\<rparr>,
        \<lparr>node = ''PetSite'', metric = ''latency'', score = Fin (1 / 4)\<rparr>]"
    by (simp add: analyze_root_causes_def ex_henv_def eval_nat_numeral)
  show ?thesis
    using e hollow_returns_top_k [OF k, of ex_henv "''mean''" "()" "''PetSite''" "''latency''"
        "''Average''" ex_normal ex_abnormal 0 ex_only_a ex_only_b]
    by simp
qed

subsection \<open>Alignment and the window\<close>

lemma distinct_set_list: "distinct (set_list h xs)"
  by (simp add: set_list_def)

lemma set_set_list: "set (set_list h xs) = set xs"
  by (simp add: set_list_def)

lemma columns_loc_cols: "loc_cols t cs = Inr t' \<Longrightarrow> columns t' = cs \<and> nrows t' = nrows t"
  by (auto simp: loc_cols_def columns_def comp_def split: if_splits)

lemma columns_pd_concat:
  "columns (pd_concat a b) = columns a @ filter (\<lambda>c. c \<notin> set (columns a)) (columns b)"
  by (simp add: pd_concat_def columns_def comp_def)

lemma fit_transform_shape:
  "fit_transform t = Inr t' \<Longrightarrow>
   columns t' = columns t \<and> nrows t' = nrows t \<and> 0 < nrows t \<and> cols t \<noteq> []"
  by (auto simp: fit_transform_def columns_def comp_def case_prod_unfold split: if_splits)

lemma fit_transform_cols:
  "fit_transform t = Inr t' \<Longrightarrow>
   cols t' = map (\<lambda>(c, vs). (c, scale_column vs)) (cols t)
   \<and> \<not> list_ex (\<lambda>cv. list_ex is_inf (snd cv)) (cols t)"
  by (auto simp: fit_transform_def split: if_splits)

lemma columns_tail: "columns (tail n t) = columns t"
  by (simp add: tail_def columns_def comp_def case_prod_unfold)

text \<open>
  When the window is reached, its columns are the common columns, it has the last
  5 rows of the combined table (all rows when there are fewer), and at least one row.
\<close>

lemma window_shape:
  assumes "window env normal abnormal = Inr w"
  shows "columns w = common_columns env normal abnormal"
    and "nrows w = min 5 (nrows normal + nrows abnormal)"
    and "0 < nrows w"
proof -
  let ?cs = "common_columns env normal abnormal"
  from assms obtain n a r where
    n: "loc_cols normal ?cs = Inr n" and a: "loc_cols abnormal ?cs = Inr a"
    and r: "fit_transform (pd_concat n a) = Inr r" and w: "w = tail 5 r"
    by (auto simp: window_def Let_def split: sum.splits)
  have "columns (pd_concat n a) = ?cs"
    using columns_loc_cols [OF n] columns_loc_cols [OF a] by (simp add: columns_pd_concat)
  with fit_transform_shape [OF r] w show "columns w = ?cs"
    by (simp add: columns_tail)
  have "nrows (pd_concat n a) = nrows normal + nrows abnormal"
    using columns_loc_cols [OF n] columns_loc_cols [OF a] by (simp add: pd_concat_def)
  with fit_transform_shape [OF r] w
  show "nrows w = min 5 (nrows normal + nrows abnormal)" and "0 < nrows w"
    by (auto simp: tail_def)
qed

lemma ex_window_eval: "window ex_env ex_normal ex_abnormal = Inr ex_window"
  by code_simp

subsection \<open>The change filter\<close>

lemma zip_map_same: "zip (map f xs) (map g xs) = map (\<lambda>x. (f x, g x)) xs"
  by (induction xs) auto

lemma percentage_change_rows:
  assumes "0 < nrows w"
  shows "percentage_change target_metric w =
     Inr (map (\<lambda>(c, vs).
            (c, if target_metric = ''availability''
                then fmul (fdiv (fsub (vs ! 0) (vs ! (nrows w - 1))) (vs ! 0)) (Fin 100)
                else fmul (fdiv (fsub (vs ! (nrows w - 1)) (vs ! 0)) (vs ! 0)) (Fin 100)))
          (cols w))"
proof -
  have i0: "iloc w 0 = Inr (map (\<lambda>(c, vs). (c, vs ! 0)) (cols w))"
    using assms by (simp add: iloc_def)
  have "nat (int (nrows w) - 1) = nrows w - 1" by simp
  then have i1: "iloc w (- 1) = Inr (map (\<lambda>(c, vs). (c, vs ! (nrows w - 1))) (cols w))"
    using assms by (simp add: iloc_def Let_def)
  show ?thesis
    by (simp add: percentage_change_def i0 i1 series_binop_def series_scalar_def zip_map_same
        comp_def case_prod_unfold)
qed

text \<open>
  C3. On the window (the last 5 rows of the combined table, all rows when there are
  fewer), the change filter computes for every column, from the value \<open>vs ! 0\<close> of its
  first row and the value \<open>vs ! (nrows w - 1)\<close> of its last row,
  \<open>(first - last) / first * 100\<close> when the target metric is \<open>availability\<close> and
  \<open>(last - first) / first * 100\<close> for every other metric.
\<close>

theorem change_filter_formula:
  assumes "window env normal abnormal = Inr w"
  shows "nrows w = min 5 (nrows normal + nrows abnormal)
    \<and> percentage_change target_metric w =
        Inr (map (\<lambda>(c, vs).
               (c, if target_metric = ''availability''
                   then fmul (fdiv (fsub (vs ! 0) (vs ! (nrows w - 1))) (vs ! 0)) (Fin 100)
                   else fmul (fdiv (fsub (vs ! (nrows w - 1)) (vs ! 0)) (vs ! 0)) (Fin 100)))
             (cols w))"
  using window_shape [OF assms] percentage_change_rows by simp

theorem change_filter_formula_witness:
  "window ex_env ex_normal ex_abnormal = Inr ex_window
   \<and> percentage_change ''availability'' ex_window
       = Inr [(''A'', NaN), (''B'', Fin (- 300)), (''PetSite'', Fin (- 400))]
   \<and> percentage_change ''latency'' ex_window
       = Inr [(''A'', NaN), (''B'', Fin 300), (''PetSite'', Fin 400)]"
  using ex_window_eval
    change_filter_formula [OF ex_window_eval, of "''availability''"]
    change_filter_formula [OF ex_window_eval, of "''latency''"]
  by (simp add: ex_window_def fsub_def signed_inf_def)

subsection \<open>The scaler on a constant column\<close>

lemma fold_min_bound:
  "\<forall>v\<in>set (x # xs). \<exists>a. v = Fin a \<Longrightarrow>
   \<exists>m. fold (\<lambda>v m. if flt v m then v else m) xs x = Fin m
       \<and> (\<forall>a. Fin a \<in> set (x # xs) \<longrightarrow> m \<le> a)"
proof (induction xs arbitrary: x)
  case Nil
  then show ?case by auto
next
  case (Cons y ys)
  then obtain a b where x: "x = Fin a" and y: "y = Fin b" by auto
  let ?z = "if flt y x then y else x"
  have "\<forall>v\<in>set (?z # ys). \<exists>a. v = Fin a" using Cons.prems by auto
  from Cons.IH [OF this] obtain m where
    m: "fold (\<lambda>v m. if flt v m then v else m) ys ?z = Fin m"
       "\<forall>a. Fin a \<in> set (?z # ys) \<longrightarrow> m \<le> a"
    by blast
  have "m \<le> a \<and> m \<le> b" using m(2) x y by (auto split: if_splits)
  with m x y show ?case by (auto split: if_splits)
qed

lemma fold_max_bound:
  "\<forall>v\<in>set (x # xs). \<exists>a. v = Fin a \<Longrightarrow>
   \<exists>m. fold (\<lambda>v m. if flt m v then v else m) xs x = Fin m
       \<and> (\<forall>a. Fin a \<in> set (x # xs) \<longrightarrow> a \<le> m)"
proof (induction xs arbitrary: x)
  case Nil
  then show ?case by auto
next
  case (Cons y ys)
  then obtain a b where x: "x = Fin a" and y: "y = Fin b" by auto
  let ?z = "if flt x y then y else x"
  have "\<forall>v\<in>set (?z # ys). \<exists>a. v = Fin a" using Cons.prems by auto
  from Cons.IH [OF this] obtain m where
    m: "fold (\<lambda>v m. if flt m v then v else m) ys ?z = Fin m"
       "\<forall>a. Fin a \<in> set (?z # ys) \<longrightarrow> a \<le> m"
    by blast
  have "a \<le> m \<and> b \<le> m" using m(2) x y by (auto split: if_splits)
  with m x y show ?case by (auto split: if_splits)
qed

text \<open>A column of numbers whose minimum equals its maximum holds one number only.\<close>

lemma min_eq_max_constant:
  assumes num: "\<forall>v\<in>set vs. \<exists>a. v = Fin a" and ne: "vs \<noteq> []" and eq: "nanmin vs = nanmax vs"
  shows "\<exists>a. nanmin vs = Fin a \<and> (\<forall>v\<in>set vs. v = Fin a)"
proof -
  from ne obtain x xs where vs: "vs = x # xs" by (cases vs) auto
  have f: "filter (\<lambda>v. \<not> is_nan v) vs = vs"
    using num by (auto simp: filter_id_conv)
  have all: "\<forall>v\<in>set (x # xs). \<exists>a. v = Fin a" using num vs by simp
  from fold_min_bound [OF all] obtain lo where
    lo: "nanmin vs = Fin lo" "\<forall>a. Fin a \<in> set vs \<longrightarrow> lo \<le> a"
    using f vs by (auto simp: nanmin_def)
  from fold_max_bound [OF all] obtain hi where
    hi: "nanmax vs = Fin hi" "\<forall>a. Fin a \<in> set vs \<longrightarrow> a \<le> hi"
    using f vs by (auto simp: nanmax_def)
  have "lo = hi" using eq lo(1) hi(1) by simp
  then have "\<forall>v\<in>set vs. v = Fin lo"
    using num lo(2) hi(2) by (metis order_antisym)
  with lo(1) show ?thesis by blast
qed

lemma scale_column_constant:
  assumes num: "\<forall>v\<in>set vs. \<exists>a. v = Fin a" and eq: "nanmin vs = nanmax vs"
  shows "scale_column vs = replicate (length vs) (Fin 0)"
proof (cases "vs = []")
  case True
  then show ?thesis by (simp add: scale_column_def)
next
  case False
  from min_eq_max_constant [OF num False eq] obtain a where
    a: "nanmin vs = Fin a" "\<forall>v\<in>set vs. v = Fin a" by blast
  have "map (\<lambda>x. fadd (fmul x (Fin 1)) (Fin (- a))) vs = replicate (length vs) (Fin 0)"
    using a(2) by (induction vs) auto
  then show ?thesis
    using a(1) eq by (simp add: scale_column_def fsub_def handle_zeros_in_scale_def)
qed

text \<open>
  C7. When the scaler accepts the combined table (it has a row and a column and no
  infinite entry), a column of numbers whose minimum equals its maximum is mapped to
  the number 0 in every row: no entry of it is \<open>nan\<close> or infinite after scaling.
\<close>

theorem zero_variance_column_scaled_to_zero:
  assumes "fit_transform t = Inr t'"
    and "i < length (cols t)" and "cols t ! i = (c, vs)"
    and "list_all (\<lambda>v. \<not> is_nan v) vs" and "nanmin vs = nanmax vs"
  shows "cols t' ! i = (c, replicate (length vs) (Fin 0))"
proof -
  from fit_transform_cols [OF assms(1)] have
    c: "cols t' = map (\<lambda>(c, vs). (c, scale_column vs)) (cols t)"
    and f: "\<not> list_ex (\<lambda>cv. list_ex is_inf (snd cv)) (cols t)" by auto
  have "(c, vs) \<in> set (cols t)" using assms(2,3) by (metis nth_mem)
  with f have "\<forall>v\<in>set vs. \<not> is_inf v" by (auto simp: list_ex_iff)
  with assms(4) have num: "\<forall>v\<in>set vs. \<exists>a. v = Fin a"
    by (metis (mono_tags, lifting) fval.exhaust is_inf.simps(1,2) is_nan.simps(1) list_all_iff)
  show ?thesis
    using c assms(2,3) scale_column_constant [OF num assms(5)] by simp
qed

theorem zero_variance_column_scaled_to_zero_witness:
  "fit_transform ex_combined
     = Inr \<lparr>nrows = 3, cols = [(''PetSite'', [Fin 0, Fin (1 / 3), Fin 1]), (''A'', [Fin 0, Fin 0, Fin 0])]\<rparr>
   \<and> cols ex_combined ! 1 = (''A'', [Fin 5, Fin 5, Fin 5])
   \<and> nanmin [Fin 5, Fin 5, Fin 5] = nanmax [Fin 5, Fin 5, Fin 5]"
proof -
  have e: "fit_transform ex_combined
     = Inr \<lparr>nrows = 3, cols = [(''PetSite'', [Fin 0, Fin (1 / 3), Fin 1]), (''A'', [Fin 0, Fin 0, Fin 0])]\<rparr>"
    by code_simp
  have i: "1 < length (cols ex_combined)" and c: "cols ex_combined ! 1 = (''A'', [Fin 5, Fin 5, Fin 5])"
    by (simp_all add: ex_combined_def)
  have n: "list_all (\<lambda>v. \<not> is_nan v) [Fin 5, Fin 5, Fin 5]" by simp
  have m: "nanmin [Fin 5, Fin 5, Fin 5] = nanmax [Fin 5, Fin 5, Fin 5]"
    by (simp add: nanmin_def nanmax_def)
  show ?thesis
    using e c m zero_variance_column_scaled_to_zero [OF e i c n m] by simp
qed

subsection \<open>The candidates of the change filter\<close>

lemma change_ge_numbers: "change_ge (Fin a) (Fin b) = (b \<le> a)"
  by (simp add: change_ge_def)

lemma change_ge_nan: "change_ge a NaN"
  by (cases a) (simp_all add: change_ge_def)

lemma change_ge_total: "change_ge a b \<or> change_ge b a"
  by (auto simp: change_ge_def)

lemma sort_values_desc_sorted:
  "sorted_wrt (\<lambda>x y. change_ge (snd x) (snd y)) (sort_values_desc tie pc)"
proof -
  let ?k = "\<lambda>cv. (desc_key (snd cv), if is_nan (snd cv) then 0 else tie (fst cv))"
  have "sorted (map ?k (sort_values_desc tie pc))"
    unfolding sort_values_desc_def by (rule sorted_sort_key)
  then have "sorted_wrt (\<lambda>x y. ?k x \<le> ?k y) (sort_values_desc tie pc)"
    by (simp add: sorted_map)
  then show ?thesis
  proof (rule sorted_wrt_mono_rel [rotated])
    fix x y
    assume "?k x \<le> ?k y"
    then show "change_ge (snd x) (snd y)"
      by (auto simp: change_ge_def less_le_not_le)
  qed
qed

lemma mset_sort_values_desc: "mset (sort_values_desc tie pc) = mset pc"
  by (simp add: sort_values_desc_def)

text \<open>
  C6. The candidates are the labels of \<open>kept\<close>, the first 10 entries of the changes
  sorted by \<^verbatim>\<open>sort_values(ascending=False)\<close>: \<open>kept\<close> and \<open>dropped\<close> together are
  the columns with their changes, \<open>kept\<close> has 10 entries or all of them when there are
  fewer (then nothing is dropped), \<open>kept\<close> is in descending order of the change, and
  every kept change is at least every dropped one. The order is that of pandas:
  numbers descending, \<open>inf\<close> first, and \<open>nan\<close> (from \<open>0 / 0\<close>) after every number.
\<close>

theorem top_columns_are_largest:
  "\<exists>kept dropped.
     mset (kept @ dropped) = mset pc
     \<and> top_columns_percentage env pc = map fst kept
     \<and> length kept = min 10 (length pc)
     \<and> length dropped = length pc - 10
     \<and> sorted_wrt (\<lambda>x y. change_ge (snd x) (snd y)) kept
     \<and> list_all (\<lambda>k. list_all (\<lambda>d. change_ge (snd k) (snd d)) dropped) kept"
proof -
  let ?s = "sort_values_desc (tie_order env) pc"
  have s: "sorted_wrt (\<lambda>x y. change_ge (snd x) (snd y)) (take 10 ?s @ drop 10 ?s)"
    using sort_values_desc_sorted [of "tie_order env" pc] by simp
  have m: "mset (take 10 ?s @ drop 10 ?s) = mset pc"
    by (simp add: mset_sort_values_desc)
  have l: "length ?s = length pc" by (simp add: sort_values_desc_def)
  from s have "sorted_wrt (\<lambda>x y. change_ge (snd x) (snd y)) (take 10 ?s)"
    and "list_all (\<lambda>k. list_all (\<lambda>d. change_ge (snd k) (snd d)) (drop 10 ?s)) (take 10 ?s)"
    unfolding sorted_wrt_append by (auto simp: list_all_iff)
  with m l show ?thesis
    unfolding top_columns_percentage_def
    by (intro exI [of _ "take 10 ?s"] exI [of _ "drop 10 ?s"]) (simp add: min.commute)
qed

theorem top_columns_are_largest_witness:
  "top_columns_percentage ex_env ex_changes
     = [''c03'', ''c05'', ''c08'', ''c10'', ''c12'', ''c01'', ''c09'', ''c07'', ''c04'', ''c06'']
   \<and> (\<exists>kept dropped.
         mset (kept @ dropped) = mset ex_changes
         \<and> top_columns_percentage ex_env ex_changes = map fst kept
         \<and> length kept = min 10 (length ex_changes)
         \<and> length dropped = length ex_changes - 10
         \<and> sorted_wrt (\<lambda>x y. change_ge (snd x) (snd y)) kept
         \<and> list_all (\<lambda>k. list_all (\<lambda>d. change_ge (snd k) (snd d)) dropped) kept)"
proof -
  have "top_columns_percentage ex_env ex_changes
     = [''c03'', ''c05'', ''c08'', ''c10'', ''c12'', ''c01'', ''c09'', ''c07'', ''c04'', ''c06'']"
    by code_simp
  then show ?thesis
    using top_columns_are_largest [where pc = ex_changes and env = ex_env] by blast
qed

subsection \<open>The scoring loop\<close>

lemma keys_dict_set: "set (map fst (dict_set d k v)) = insert k (set (map fst d))"
proof (induction d)
  case Nil
  then show ?case by simp
next
  case (Cons x d)
  then show ?case by (cases x) (auto split: if_splits)
qed

lemma set_dict_set: "set (dict_set d k v) \<subseteq> insert (k, v) (set d)"
proof (induction d)
  case Nil
  then show ?case by simp
next
  case (Cons x d)
  then show ?case by (cases x) (auto split: if_splits)
qed

lemma dict_set_fresh: "k \<notin> set (map fst d) \<Longrightarrow> dict_set d k v = d @ [(k, v)]"
  by (induction d) auto

lemma ks_loop_items:
  assumes "ks_loop env w pd cs acc = Inr items"
    and "(c, s) \<in> set items"
  shows "(c, s) \<in> set acc
    \<or> (c \<in> set cs \<and> c \<noteq> petsite_column
       \<and> (\<exists>cd. column w c = Inr cd \<and> s = fdiv (Fin 1) (fadd (Fin 1) (ks_2samp env pd cd))))"
  using assms
proof (induction cs arbitrary: acc)
  case Nil
  then show ?case by simp
next
  case (Cons x xs)
  show ?case
  proof (cases "x = petsite_column")
    case True
    with Cons.prems have "ks_loop env w pd xs acc = Inr items" by simp
    from Cons.IH [OF this Cons.prems(2)] show ?thesis by auto
  next
    case False
    with Cons.prems(1) obtain cd where cd: "column w x = Inr cd"
      and r: "ks_loop env w pd xs (dict_set acc x (fdiv (Fin 1) (fadd (Fin 1) (ks_2samp env pd cd)))) = Inr items"
      by (auto split: sum.splits)
    from Cons.IH [OF r Cons.prems(2)] set_dict_set [of acc x] cd False show ?thesis
      by auto
  qed
qed

lemma ks_loop_keys:
  assumes "ks_loop env w pd cs acc = Inr items"
    and "distinct cs" and "set cs \<inter> set (map fst acc) = {}"
  shows "map fst items = map fst acc @ filter (\<lambda>c. c \<noteq> petsite_column) cs"
  using assms
proof (induction cs arbitrary: acc)
  case Nil
  then show ?case by simp
next
  case (Cons x xs)
  show ?case
  proof (cases "x = petsite_column")
    case True
    with Cons.prems have "ks_loop env w pd xs acc = Inr items" by simp
    from Cons.IH [OF this] Cons.prems True show ?thesis by auto
  next
    case False
    with Cons.prems(1) obtain cd where cd: "column w x = Inr cd"
      and r: "ks_loop env w pd xs (dict_set acc x (fdiv (Fin 1) (fadd (Fin 1) (ks_2samp env pd cd)))) = Inr items"
      by (auto split: sum.splits)
    have fresh: "x \<notin> set (map fst acc)" using Cons.prems(3) by auto
    have "set xs \<inter> set (map fst (dict_set acc x (fdiv (Fin 1) (fadd (Fin 1) (ks_2samp env pd cd))))) = {}"
      using Cons.prems(2,3) keys_dict_set [of acc x] by auto
    from Cons.IH [OF r _ this] Cons.prems(2) False fresh show ?thesis
      by (simp add: dict_set_fresh)
  qed
qed

lemma percentage_change_labels:
  "percentage_change tm w = Inr pc \<Longrightarrow> map fst pc = columns w"
  by (auto simp: percentage_change_def iloc_def Let_def series_binop_def series_scalar_def
      zip_map_same columns_def comp_def case_prod_unfold split: sum.splits if_splits)

lemma top_columns_subset: "set (top_columns_percentage env pc) \<subseteq> set (map fst pc)"
proof -
  have "set (take 10 (sort_values_desc (tie_order env) pc)) \<subseteq> set pc"
    using set_take_subset [of 10 "sort_values_desc (tie_order env) pc"]
    by (simp add: sort_values_desc_def)
  then show ?thesis by (auto simp: top_columns_percentage_def)
qed

lemma top_columns_distinct: "distinct (map fst pc) \<Longrightarrow> distinct (top_columns_percentage env pc)"
proof -
  assume d: "distinct (map fst pc)"
  have "mset (map fst (sort_values_desc (tie_order env) pc)) = mset (map fst pc)"
    by (simp add: sort_values_desc_def)
  with d have "distinct (map fst (sort_values_desc (tie_order env) pc))"
    by (metis mset_eq_imp_distinct_iff)
  then show ?thesis
    by (simp add: top_columns_percentage_def take_map [symmetric] distinct_take)
qed


subsection \<open>The result of the function\<close>

lemma analyze_result:
  assumes "functional_analyze_root_causes env graph target_node target_metric target_statistic
             normal_raw abnormal_raw = (printed, Inr res)"
  shows "\<exists>w printed2.
      window env (reduce_df env normal_raw target_metric target_statistic)
        (reduce_df env abnormal_raw target_metric target_statistic) = Inr w
      \<and> rank_window env target_metric w = (printed2, Inr res)
      \<and> printed = diagnostics env (reduce_df env normal_raw target_metric target_statistic)
          (reduce_df env abnormal_raw target_metric target_statistic) @ printed2"
  using assms
  by (auto simp: functional_analyze_root_causes_def Let_def split: sum.splits prod.splits)

lemma rank_window_result:
  assumes "rank_window env target_metric w = (printed2, Inr res)"
  shows "(petsite_column \<notin> set (columns w) \<and> res = [] \<and> printed2 = [PetSiteNotFound])
    \<or> (\<exists>pc petsite_data ks_scores.
          percentage_change target_metric w = Inr pc
          \<and> column w petsite_column = Inr petsite_data
          \<and> ks_loop env w petsite_data (top_columns_percentage env pc) [] = Inr ks_scores
          \<and> res = map (\<lambda>(root_cause, s). \<lparr>node = root_cause, metric = target_metric, score = s\<rparr>)
                  (sorted_desc (nan_order env) ks_scores)
          \<and> printed2 = [])"
  using assms
  by (auto simp: rank_window_def split: sum.splits if_splits)

lemma set_sorted_desc: "set (sorted_desc r items) = set items"
  by (simp add: sorted_desc_def)

lemma mset_sorted_desc: "mset (sorted_desc r items) = mset items"
  by (simp add: sorted_desc_def)

lemma common_columns_subset:
  "set (common_columns env normal abnormal) = set (columns normal) \<inter> set (columns abnormal)"
  by (auto simp: common_columns_def set_set_list)

lemma ex_analyze_eval:
  "functional_analyze_root_causes ex_env () ''PetSite'' ''latency'' ''Average'' ex_normal ex_abnormal
     = ([MissingInNormal [''C'']],
        Inr [\<lparr>node = ''B'', metric = ''latency'', score = Fin (5 / 6)\<rparr>,
             \<lparr>node = ''A'', metric = ''latency'', score = Fin (1 / 2)\<rparr>])"
  by code_simp

text \<open>
  C9. Every entry returned has the target metric, its node is not the reference column
  \<open>PetSite\<close>, and its node is a column of both reduced tables (the aligned
  intersection).
\<close>

theorem returned_nodes_are_common_columns:
  assumes "functional_analyze_root_causes env graph target_node target_metric target_statistic
             normal_raw abnormal_raw = (printed, Inr res)"
    and "p \<in> set res"
  shows "metric p = target_metric
    \<and> node p \<noteq> ''PetSite''
    \<and> node p \<in> set (columns (reduce_df env normal_raw target_metric target_statistic))
    \<and> node p \<in> set (columns (reduce_df env abnormal_raw target_metric target_statistic))"
proof -
  let ?n = "reduce_df env normal_raw target_metric target_statistic"
  let ?a = "reduce_df env abnormal_raw target_metric target_statistic"
  from analyze_result [OF assms(1)] obtain w printed2 where
    w: "window env ?n ?a = Inr w" and r: "rank_window env target_metric w = (printed2, Inr res)"
    by blast
  from rank_window_result [OF r] assms(2) obtain pc petsite_data ks_scores where
    pc: "percentage_change target_metric w = Inr pc"
    and l: "ks_loop env w petsite_data (top_columns_percentage env pc) [] = Inr ks_scores"
    and res: "res = map (\<lambda>(root_cause, s). \<lparr>node = root_cause, metric = target_metric, score = s\<rparr>)
                  (sorted_desc (nan_order env) ks_scores)"
    by auto
  from assms(2) res obtain c s where cs: "(c, s) \<in> set ks_scores"
    and p: "p = \<lparr>node = c, metric = target_metric, score = s\<rparr>"
    by (auto simp: set_sorted_desc)
  from ks_loop_items [OF l cs] have c: "c \<in> set (top_columns_percentage env pc)" "c \<noteq> petsite_column"
    by auto
  from c(1) top_columns_subset [of env pc] percentage_change_labels [OF pc] window_shape(1) [OF w]
  have "c \<in> set (common_columns env ?n ?a)" by auto
  with c(2) p show ?thesis
    by (simp add: common_columns_subset petsite_column_def)
qed

theorem returned_nodes_are_common_columns_witness:
  "functional_analyze_root_causes ex_env () ''PetSite'' ''latency'' ''Average'' ex_normal ex_abnormal
     = ([MissingInNormal [''C'']],
        Inr [\<lparr>node = ''B'', metric = ''latency'', score = Fin (5 / 6)\<rparr>,
             \<lparr>node = ''A'', metric = ''latency'', score = Fin (1 / 2)\<rparr>])
   \<and> ''B'' \<in> set (columns ex_normal) \<and> ''B'' \<in> set (columns ex_abnormal)
   \<and> ''PetSite'' \<in> set (top_columns_percentage ex_env [(''A'', NaN), (''B'', Fin 300), (''PetSite'', Fin 400)])"
proof -
  have "\<lparr>node = ''B'', metric = ''latency'', score = Fin (5 / 6)\<rparr>
      \<in> set [\<lparr>node = ''B'', metric = ''latency'', score = Fin (5 / 6)\<rparr>,
             \<lparr>node = ''A'', metric = ''latency'', score = Fin (1 / 2)\<rparr>]"
    by simp
  from returned_nodes_are_common_columns [OF ex_analyze_eval this]
  have "''B'' \<in> set (columns ex_normal) \<and> ''B'' \<in> set (columns ex_abnormal)"
    by (simp add: ex_env_def)
  moreover have
    "''PetSite'' \<in> set (top_columns_percentage ex_env [(''A'', NaN), (''B'', Fin 300), (''PetSite'', Fin 400)])"
    by code_simp
  ultimately show ?thesis
    using ex_analyze_eval by simp
qed



subsection \<open>The order of the result\<close>

lemma desc_key_inj: "desc_key a = desc_key b \<longleftrightarrow> a = b"
  by (cases a; cases b) auto

lemma desc_key_fge: "\<not> is_nan a \<Longrightarrow> \<not> is_nan b \<Longrightarrow> desc_key a \<le> desc_key b \<Longrightarrow> fge a b"
  by (cases a; cases b) auto

text \<open>With no \<open>nan\<close> among the scores, Python's sort is the stable descending sort.\<close>

lemma sorted_desc_numbers:
  "\<not> list_ex (\<lambda>item. is_nan (snd item)) items \<Longrightarrow>
   sorted_desc r items = sort_key (\<lambda>item. desc_key (snd item)) items"
  by (simp add: sorted_desc_def)

lemma sorted_desc_sorted:
  assumes "\<not> list_ex (\<lambda>item. is_nan (snd item)) items"
  shows "sorted_wrt (\<lambda>x y. desc_key (snd x) \<le> desc_key (snd y)) (sorted_desc r items)"
proof -
  have "sorted (map (\<lambda>item. desc_key (snd item)) (sorted_desc r items))"
    by (simp add: sorted_desc_numbers [OF assms])
  then show ?thesis by (simp add: sorted_map)
qed

lemma sorted_desc_stable:
  assumes "\<not> list_ex (\<lambda>item. is_nan (snd item)) items"
  shows "filter (\<lambda>item. snd item = s) (sorted_desc r items) = filter (\<lambda>item. snd item = s) items"
  using sort_key_stable [of "\<lambda>item. desc_key (snd item)" "desc_key s" items]
  by (simp add: sorted_desc_numbers [OF assms] desc_key_inj)

lemma window_columns_distinct:
  "window env normal abnormal = Inr w \<Longrightarrow> distinct (columns w)"
  using window_shape(1) [of env normal abnormal w]
  by (simp add: common_columns_def distinct_set_list)

lemma ex_rank_window_eval: "window ex_env ex_rank_normal ex_rank_abnormal = Inr ex_rank_window"
  by code_simp

lemma ex_rank_eval:
  "functional_analyze_root_causes ex_env () ''PetSite'' ''latency'' ''Average''
       ex_rank_normal ex_rank_abnormal
     = ([], Inr [\<lparr>node = ''R'', metric = ''latency'', score = Fin 1\<rparr>,
                 \<lparr>node = ''P'', metric = ''latency'', score = Fin (5 / 6)\<rparr>,
                 \<lparr>node = ''Q'', metric = ''latency'', score = Fin (5 / 6)\<rparr>])"
  by code_simp

text \<open>
  C5, as amended. When no score returned is \<open>nan\<close>, the result is in descending
  order of the score, every entry's score being at least the score of every later
  entry; and the sort is stable: the result is a rearrangement of the list \<open>unsorted\<close>
  of the scored candidates in their original order (the top columns without
  \<open>PetSite\<close>, in the order of the change filter), and for every score the entries with
  that score are in the same order in both.
\<close>

theorem result_sorted_by_score_stable:
  assumes "functional_analyze_root_causes env graph target_node target_metric target_statistic
             normal_raw abnormal_raw = (printed, Inr res)"
    and "list_all (\<lambda>p. \<not> is_nan (score p)) res"
  shows "sorted_wrt (\<lambda>a b. fge (score a) (score b)) res
    \<and> (\<exists>unsorted.
          mset unsorted = mset res
          \<and> (\<forall>s. filter (\<lambda>p. score p = s) res = filter (\<lambda>p. score p = s) unsorted)
          \<and> (res = []
             \<or> (\<exists>w pc.
                  window env (reduce_df env normal_raw target_metric target_statistic)
                    (reduce_df env abnormal_raw target_metric target_statistic) = Inr w
                  \<and> percentage_change target_metric w = Inr pc
                  \<and> map node unsorted
                      = filter (\<lambda>c. c \<noteq> ''PetSite'') (top_columns_percentage env pc))))"
proof -
  let ?n = "reduce_df env normal_raw target_metric target_statistic"
  let ?a = "reduce_df env abnormal_raw target_metric target_statistic"
  let ?b = "\<lambda>(root_cause, s). \<lparr>node = root_cause, metric = target_metric, score = s\<rparr>"
  from analyze_result [OF assms(1)] obtain w printed2 where
    w: "window env ?n ?a = Inr w" and r: "rank_window env target_metric w = (printed2, Inr res)"
    by blast
  from rank_window_result [OF r] show ?thesis
  proof
    assume "petsite_column \<notin> set (columns w) \<and> res = [] \<and> printed2 = [PetSiteNotFound]"
    then have "res = []" by simp
    then show ?thesis by simp
  next
    assume "\<exists>pc petsite_data ks_scores.
          percentage_change target_metric w = Inr pc
          \<and> column w petsite_column = Inr petsite_data
          \<and> ks_loop env w petsite_data (top_columns_percentage env pc) [] = Inr ks_scores
          \<and> res = map ?b (sorted_desc (nan_order env) ks_scores)
          \<and> printed2 = []"
    then obtain pc petsite_data ks_scores where
      pc: "percentage_change target_metric w = Inr pc"
      and l: "ks_loop env w petsite_data (top_columns_percentage env pc) [] = Inr ks_scores"
      and res: "res = map ?b (sorted_desc (nan_order env) ks_scores)"
      by blast
    have sc: "score (?b item) = snd item" for item by (cases item) simp
    have nd: "node (?b item) = fst item" for item by (cases item) simp
    have nn: "\<forall>item\<in>set (sorted_desc (nan_order env) ks_scores). \<not> is_nan (snd item)"
      using assms(2) res sc by (auto simp: list_all_iff)
    then have no: "\<not> list_ex (\<lambda>item. is_nan (snd item)) ks_scores"
      by (simp add: set_sorted_desc list_ex_iff)
    have "sorted_wrt (\<lambda>x y. fge (snd x) (snd y)) (sorted_desc (nan_order env) ks_scores)"
    proof (rule sorted_wrt_mono_rel [OF _ sorted_desc_sorted [OF no]])
      fix x y
      assume "x \<in> set (sorted_desc (nan_order env) ks_scores)" and "y \<in> set (sorted_desc (nan_order env) ks_scores)"
        and "desc_key (snd x) \<le> desc_key (snd y)"
      with nn show "fge (snd x) (snd y)" by (blast intro: desc_key_fge)
    qed
    then have s1: "sorted_wrt (\<lambda>a b. fge (score a) (score b)) res"
      by (simp add: res sorted_wrt_map sc)
    have m: "mset (map ?b ks_scores) = mset res"
      by (simp add: res mset_sorted_desc)
    have st: "filter (\<lambda>p. score p = s) res = filter (\<lambda>p. score p = s) (map ?b ks_scores)" for s
      using sorted_desc_stable [OF no, of s "nan_order env"]
      by (simp add: res filter_map comp_def sc)
    have "distinct (map fst pc)"
      using percentage_change_labels [OF pc] window_columns_distinct [OF w] by simp
    then have "distinct (top_columns_percentage env pc)" by (rule top_columns_distinct)
    from ks_loop_keys [OF l this]
    have "map fst ks_scores = filter (\<lambda>c. c \<noteq> petsite_column) (top_columns_percentage env pc)"
      by simp
    then have o: "map node (map ?b ks_scores)
        = filter (\<lambda>c. c \<noteq> ''PetSite'') (top_columns_percentage env pc)"
      by (simp add: comp_def nd petsite_column_def)
    from s1 m st o w pc show ?thesis by blast
  qed
qed

theorem result_sorted_by_score_stable_witness:
  "functional_analyze_root_causes ex_env () ''PetSite'' ''latency'' ''Average''
       ex_rank_normal ex_rank_abnormal
     = ([], Inr [\<lparr>node = ''R'', metric = ''latency'', score = Fin 1\<rparr>,
                 \<lparr>node = ''P'', metric = ''latency'', score = Fin (5 / 6)\<rparr>,
                 \<lparr>node = ''Q'', metric = ''latency'', score = Fin (5 / 6)\<rparr>])
   \<and> sorted_wrt (\<lambda>a b. fge (score a) (score b))
        [\<lparr>node = ''R'', metric = ''latency'', score = Fin 1\<rparr>,
         \<lparr>node = ''P'', metric = ''latency'', score = Fin (5 / 6)\<rparr>,
         \<lparr>node = ''Q'', metric = ''latency'', score = Fin (5 / 6)\<rparr>]
   \<and> (\<exists>unsorted.
         map node unsorted = [''P'', ''R'', ''Q'']
         \<and> filter (\<lambda>p. score p = Fin (5 / 6)) unsorted
           = [\<lparr>node = ''P'', metric = ''latency'', score = Fin (5 / 6)\<rparr>,
              \<lparr>node = ''Q'', metric = ''latency'', score = Fin (5 / 6)\<rparr>])"
proof -
  let ?res = "[\<lparr>node = ''R'', metric = ''latency'', score = Fin 1\<rparr>,
               \<lparr>node = ''P'', metric = ''latency'', score = Fin (5 / 6)\<rparr>,
               \<lparr>node = ''Q'', metric = ''latency'', score = Fin (5 / 6)\<rparr>]"
  have n: "list_all (\<lambda>p. \<not> is_nan (score p)) ?res" by simp
  have pc: "percentage_change ''latency'' ex_rank_window
      = Inr [(''P'', Fin 300), (''Q'', Fin (- 50)), (''R'', Fin 100), (''PetSite'', Fin 400)]"
    by code_simp
  have t: "top_columns_percentage ex_env
        [(''P'', Fin 300), (''Q'', Fin (- 50)), (''R'', Fin 100), (''PetSite'', Fin 400)]
      = [''PetSite'', ''P'', ''R'', ''Q'']"
    by code_simp
  from result_sorted_by_score_stable [OF ex_rank_eval n] obtain unsorted where
    s: "sorted_wrt (\<lambda>a b. fge (score a) (score b)) ?res"
    and f: "\<forall>s. filter (\<lambda>p. score p = s) ?res = filter (\<lambda>p. score p = s) unsorted"
    and o: "?res = [] \<or> (\<exists>w pc.
        window ex_env (reduce_df ex_env ex_rank_normal ''latency'' ''Average'')
          (reduce_df ex_env ex_rank_abnormal ''latency'' ''Average'') = Inr w
        \<and> percentage_change ''latency'' w = Inr pc
        \<and> map node unsorted = filter (\<lambda>c. c \<noteq> ''PetSite'') (top_columns_percentage ex_env pc))"
    by blast
  have r: "reduce_df ex_env x m st = x" for x m st by (simp add: ex_env_def)
  from o obtain w pc' where
    w: "window ex_env ex_rank_normal ex_rank_abnormal = Inr w"
    and p: "percentage_change ''latency'' w = Inr pc'"
    and u: "map node unsorted = filter (\<lambda>c. c \<noteq> ''PetSite'') (top_columns_percentage ex_env pc')"
    by (auto simp: r)
  from w ex_rank_window_eval have "w = ex_rank_window" by simp
  with p pc have "pc' = [(''P'', Fin 300), (''Q'', Fin (- 50)), (''R'', Fin 100), (''PetSite'', Fin 400)]"
    by simp
  with u t have u': "map node unsorted = [''P'', ''R'', ''Q'']" by simp
  from spec [OF f, of "Fin (5 / 6)"]
  have "filter (\<lambda>p. score p = Fin (5 / 6)) unsorted = filter (\<lambda>p. score p = Fin (5 / 6)) ?res"
    by simp
  then have "filter (\<lambda>p. score p = Fin (5 / 6)) unsorted
      = [\<lparr>node = ''P'', metric = ''latency'', score = Fin (5 / 6)\<rparr>,
         \<lparr>node = ''Q'', metric = ''latency'', score = Fin (5 / 6)\<rparr>]"
    by simp
  with u' have "\<exists>unsorted.
         map node unsorted = [''P'', ''R'', ''Q'']
         \<and> filter (\<lambda>p. score p = Fin (5 / 6)) unsorted
           = [\<lparr>node = ''P'', metric = ''latency'', score = Fin (5 / 6)\<rparr>,
              \<lparr>node = ''Q'', metric = ''latency'', score = Fin (5 / 6)\<rparr>]"
    by (intro exI [of _ unsorted] conjI)
  with ex_rank_eval s show ?thesis by (intro conjI)
qed

text \<open>
  The column \<open>X\<close> has a missing value in the window, so its test statistic and its
  score are \<open>nan\<close>. The function returns \<open>X\<close> before \<open>Y\<close>, and \<open>nan >= 5/7\<close> is false;
  the other arrangement is not in descending order either.
\<close>

theorem nan_score_counterexample:
  "functional_analyze_root_causes ex_env () ''PetSite'' ''latency'' ''Average''
       ex_nan_normal ex_nan_abnormal
     = ([], Inr [\<lparr>node = ''X'', metric = ''latency'', score = NaN\<rparr>,
                 \<lparr>node = ''Y'', metric = ''latency'', score = Fin (5 / 7)\<rparr>])
   \<and> \<not> sorted_wrt (\<lambda>a b. fge (score a) (score b))
        [\<lparr>node = ''X'', metric = ''latency'', score = NaN\<rparr>,
         \<lparr>node = ''Y'', metric = ''latency'', score = Fin (5 / 7)\<rparr>]
   \<and> \<not> sorted_wrt (\<lambda>a b. fge (score a) (score b))
        [\<lparr>node = ''Y'', metric = ''latency'', score = Fin (5 / 7)\<rparr>,
         \<lparr>node = ''X'', metric = ''latency'', score = NaN\<rparr>]"
proof -
  have "functional_analyze_root_causes ex_env () ''PetSite'' ''latency'' ''Average''
       ex_nan_normal ex_nan_abnormal
     = ([], Inr [\<lparr>node = ''X'', metric = ''latency'', score = NaN\<rparr>,
                 \<lparr>node = ''Y'', metric = ''latency'', score = Fin (5 / 7)\<rparr>])"
    by code_simp
  then show ?thesis by simp
qed

subsection \<open>Completion\<close>

lemma loc_cols_total:
  "set cs \<subseteq> set (columns t) \<Longrightarrow> \<exists>t'. loc_cols t cs = Inr t'"
  by (auto simp: loc_cols_def list_all_iff)

lemma loc_cols_values:
  assumes "loc_cols t cs = Inr t'" and "(c, vs) \<in> set (cols t')"
  shows "(c, vs) \<in> set (cols t)"
proof -
  from assms(1) have
    ct: "cols t' = map (\<lambda>c. (c, case map_of (cols t) c of Some vs \<Rightarrow> vs | None \<Rightarrow> [])) cs"
    and a: "\<forall>c\<in>set cs. c \<in> set (columns t)"
    by (auto simp: loc_cols_def list_all_iff split: if_splits)
  from assms(2) ct have m: "c \<in> set cs"
    and vs: "vs = (case map_of (cols t) c of Some vs \<Rightarrow> vs | None \<Rightarrow> [])"
    by auto
  from a m obtain vs' where s: "map_of (cols t) c = Some vs'"
    by (cases "map_of (cols t) c") (auto simp: columns_def map_of_eq_None_iff)
  with vs have "vs = vs'" by simp
  with s show ?thesis by (auto dest: map_of_SomeD)
qed

lemma values_or_nan_no_inf:
  "list_all (\<lambda>cv. list_all (\<lambda>v. \<not> is_inf v) (snd cv)) (cols t) \<Longrightarrow>
   list_all (\<lambda>v. \<not> is_inf v) (values_or_nan t c)"
  by (auto simp: values_or_nan_def list_all_iff split: option.splits dest: map_of_SomeD)

lemma fit_transform_total:
  assumes "0 < nrows t" and "cols t \<noteq> []"
    and "list_all (\<lambda>cv. list_all (\<lambda>v. \<not> is_inf v) (snd cv)) (cols t)"
  shows "\<exists>t'. fit_transform t = Inr t'"
  using assms by (auto simp: fit_transform_def list_all_iff list_ex_iff)

lemma window_total:
  assumes "common_columns env normal abnormal \<noteq> []"
    and "0 < nrows normal + nrows abnormal"
    and "list_all (\<lambda>cv. list_all (\<lambda>v. \<not> is_inf v) (snd cv)) (cols normal)"
    and "list_all (\<lambda>cv. list_all (\<lambda>v. \<not> is_inf v) (snd cv)) (cols abnormal)"
  shows "\<exists>w. window env normal abnormal = Inr w"
proof -
  let ?cs = "common_columns env normal abnormal"
  have sub: "set ?cs \<subseteq> set (columns normal)" "set ?cs \<subseteq> set (columns abnormal)"
    by (auto simp: common_columns_def set_set_list)
  from loc_cols_total [OF sub(1)] obtain n where n: "loc_cols normal ?cs = Inr n" by blast
  from loc_cols_total [OF sub(2)] obtain a where a: "loc_cols abnormal ?cs = Inr a" by blast
  have ni: "list_all (\<lambda>cv. list_all (\<lambda>v. \<not> is_inf v) (snd cv)) (cols n)"
    using loc_cols_values [OF n] assms(3) by (fastforce simp: list_all_iff)
  have ai: "list_all (\<lambda>cv. list_all (\<lambda>v. \<not> is_inf v) (snd cv)) (cols a)"
    using loc_cols_values [OF a] assms(4) by (fastforce simp: list_all_iff)
  have c1: "0 < nrows (pd_concat n a)"
    using columns_loc_cols [OF n] columns_loc_cols [OF a] assms(2) by (simp add: pd_concat_def)
  have "columns (pd_concat n a) = ?cs"
    using columns_loc_cols [OF n] columns_loc_cols [OF a] by (simp add: columns_pd_concat)
  with assms(1) have c2: "cols (pd_concat n a) \<noteq> []" by (auto simp: columns_def)
  have c3: "list_all (\<lambda>cv. list_all (\<lambda>v. \<not> is_inf v) (snd cv)) (cols (pd_concat n a))"
    using values_or_nan_no_inf [OF ni] values_or_nan_no_inf [OF ai]
    by (auto simp: pd_concat_def list_all_iff)
  from fit_transform_total [OF c1 c2 c3] obtain r where "fit_transform (pd_concat n a) = Inr r"
    by blast
  with n a show ?thesis by (simp add: window_def)
qed

lemma column_total: "c \<in> set (columns t) \<Longrightarrow> \<exists>vs. column t c = Inr vs"
  by (auto simp: column_def columns_def split: option.splits simp: map_of_eq_None_iff)

lemma ks_loop_total:
  "set cs \<subseteq> set (columns w) \<Longrightarrow> \<exists>items. ks_loop env w pd cs acc = Inr items"
proof (induction cs arbitrary: acc)
  case Nil
  then show ?case by simp
next
  case (Cons c cs)
  then obtain vs where "column w c = Inr vs" using column_total [of c w] by auto
  with Cons show ?case by simp
qed

lemma rank_window_total:
  assumes "0 < nrows w"
  shows "\<exists>printed2 res. rank_window env target_metric w = (printed2, Inr res)"
proof -
  from percentage_change_rows [OF assms] obtain pc where
    pc: "percentage_change target_metric w = Inr pc" by blast
  show ?thesis
  proof (cases "petsite_column \<in> set (columns w)")
    case False
    with pc show ?thesis by (simp add: rank_window_def)
  next
    case True
    from column_total [OF True] obtain pd where pd: "column w petsite_column = Inr pd" by blast
    have "set (top_columns_percentage env pc) \<subseteq> set (columns w)"
      using top_columns_subset [of env pc] percentage_change_labels [OF pc] by simp
    from ks_loop_total [OF this] obtain items where
      "ks_loop env w pd (top_columns_percentage env pc) [] = Inr items" by blast
    with pc pd True show ?thesis by (simp add: rank_window_def)
  qed
qed

text \<open>
  C8, as amended. When the reduced tables are well formed, share at least one column,
  have at least one row between them and hold no infinite entry, the function returns
  a list: no exception leaves the call, whatever the number of rows (fewer than 5
  included) and whatever the values of the first row of the window (a zero there makes
  the change \<open>inf\<close>, \<open>-inf\<close> or \<open>nan\<close>, not a fault).
\<close>

theorem analyze_completes:
  assumes "wf_table (reduce_df env normal_raw target_metric target_statistic)"
    and "wf_table (reduce_df env abnormal_raw target_metric target_statistic)"
    and "common_columns env (reduce_df env normal_raw target_metric target_statistic)
             (reduce_df env abnormal_raw target_metric target_statistic) \<noteq> []"
    and "0 < nrows (reduce_df env normal_raw target_metric target_statistic)
           + nrows (reduce_df env abnormal_raw target_metric target_statistic)"
    and "list_all (\<lambda>cv. list_all (\<lambda>v. \<not> is_inf v) (snd cv))
           (cols (reduce_df env normal_raw target_metric target_statistic))"
    and "list_all (\<lambda>cv. list_all (\<lambda>v. \<not> is_inf v) (snd cv))
           (cols (reduce_df env abnormal_raw target_metric target_statistic))"
  shows "\<exists>printed res.
      functional_analyze_root_causes env graph target_node target_metric target_statistic
        normal_raw abnormal_raw = (printed, Inr res)"
proof -
  from window_total [OF assms(3-6)] obtain w where
    w: "window env (reduce_df env normal_raw target_metric target_statistic)
          (reduce_df env abnormal_raw target_metric target_statistic) = Inr w" by blast
  from rank_window_total [OF window_shape(3) [OF w]] obtain printed2 res where
    "rank_window env target_metric w = (printed2, Inr res)" by blast
  with w show ?thesis by (simp add: functional_analyze_root_causes_def)
qed

lemma ex_tie_window_eval:
  "window ex_env ex_tie ex_tie
     = Inr \<lparr>nrows = 4,
            cols = [(''X'', [Fin 0, Fin 1, Fin 0, Fin 1]), (''Y'', [Fin 0, Fin 1, Fin 0, Fin 1]),
                    (''PetSite'', [Fin 0, Fin 1, Fin 0, Fin 1])]\<rparr>"
  by code_simp

theorem analyze_completes_witness:
  "(\<exists>printed res.
      functional_analyze_root_causes ex_env () ''PetSite'' ''latency'' ''Average'' ex_tie ex_tie
        = (printed, Inr res))
   \<and> window ex_env ex_tie ex_tie
     = Inr \<lparr>nrows = 4,
            cols = [(''X'', [Fin 0, Fin 1, Fin 0, Fin 1]), (''Y'', [Fin 0, Fin 1, Fin 0, Fin 1]),
                    (''PetSite'', [Fin 0, Fin 1, Fin 0, Fin 1])]\<rparr>
   \<and> percentage_change ''latency''
        \<lparr>nrows = 4,
         cols = [(''X'', [Fin 0, Fin 1, Fin 0, Fin 1]), (''Y'', [Fin 0, Fin 1, Fin 0, Fin 1]),
                 (''PetSite'', [Fin 0, Fin 1, Fin 0, Fin 1])]\<rparr>
     = Inr [(''X'', PInf), (''Y'', PInf), (''PetSite'', PInf)]"
proof -
  have r: "reduce_df ex_env t m s = t" for t m s by (simp add: ex_env_def)
  have w: "wf_table ex_tie" by (simp add: wf_table_def ex_tie_def columns_def)
  have c: "common_columns ex_env ex_tie ex_tie \<noteq> []" by code_simp
  have n: "0 < nrows ex_tie + nrows ex_tie" by (simp add: ex_tie_def)
  have i: "list_all (\<lambda>cv. list_all (\<lambda>v. \<not> is_inf v) (snd cv)) (cols ex_tie)"
    by (simp add: ex_tie_def)
  have "\<exists>printed res.
      functional_analyze_root_causes ex_env () ''PetSite'' ''latency'' ''Average'' ex_tie ex_tie
        = (printed, Inr res)"
    by (rule analyze_completes) (simp_all add: r w c i, simp add: ex_tie_def)
  moreover have "percentage_change ''latency''
        \<lparr>nrows = 4,
         cols = [(''X'', [Fin 0, Fin 1, Fin 0, Fin 1]), (''Y'', [Fin 0, Fin 1, Fin 0, Fin 1]),
                 (''PetSite'', [Fin 0, Fin 1, Fin 0, Fin 1])]\<rparr>
     = Inr [(''X'', PInf), (''Y'', PInf), (''PetSite'', PInf)]"
    by code_simp
  ultimately show ?thesis using ex_tie_window_eval by (intro conjI)
qed

text \<open>
  Two tables with the columns \<open>PetSite\<close> and \<open>A\<close> and no row: the combined table has
  fewer than 5 rows, and the scaler rejects it.
\<close>

theorem no_rows_counterexample:
  "nrows ex_no_rows + nrows ex_no_rows < 5
   \<and> functional_analyze_root_causes ex_env () ''PetSite'' ''latency'' ''Average'' ex_no_rows ex_no_rows
     = ([], Inl ValueError)"
proof -
  have "functional_analyze_root_causes ex_env () ''PetSite'' ''latency'' ''Average'' ex_no_rows ex_no_rows
     = ([], Inl ValueError)"
    by code_simp
  then show ?thesis by (simp add: ex_no_rows_def)
qed

subsection \<open>The reference column is missing\<close>

text \<open>
  When the window is reached and \<open>PetSite\<close> is not among its columns, the function
  prints the message of line 74 after the diagnostics and returns the empty list.
\<close>

lemma petsite_guard:
  assumes "window env (reduce_df env normal_raw target_metric target_statistic)
             (reduce_df env abnormal_raw target_metric target_statistic) = Inr w"
    and "''PetSite'' \<notin> set (columns w)"
  shows "functional_analyze_root_causes env graph target_node target_metric target_statistic
           normal_raw abnormal_raw
     = (diagnostics env (reduce_df env normal_raw target_metric target_statistic)
          (reduce_df env abnormal_raw target_metric target_statistic) @ [PetSiteNotFound], Inr [])"
proof -
  from percentage_change_rows [OF window_shape(3) [OF assms(1)]] obtain pc where
    "percentage_change target_metric w = Inr pc" by blast
  with assms show ?thesis
    by (simp add: functional_analyze_root_causes_def rank_window_def petsite_column_def)
qed

lemma petsite_guard_example:
  "functional_analyze_root_causes ex_env () ''PetSite'' ''latency'' ''Average'' ex_only_a ex_a_b
     = ([MissingInNormal [''B''], PetSiteNotFound], Inr [])"
  by code_simp

text \<open>
  With no common column the window is not reached: the scaler is called on a frame
  without columns and raises ValueError, before the test of line 73.
\<close>

lemma empty_intersection_raises:
  assumes "common_columns env normal abnormal = []"
  shows "window env normal abnormal = Inl ValueError"
  using assms by (simp add: window_def loc_cols_def pd_concat_def columns_def fit_transform_def)

lemma ex_disjoint_eval:
  "functional_analyze_root_causes ex_env () ''PetSite'' ''latency'' ''Average'' ex_only_a ex_only_b
     = ([MissingInAbnormal [''A''], MissingInNormal [''B'']], Inl ValueError)"
  by code_simp

text \<open>
  C2, at the failing input: the normal table has the column \<open>A\<close> only, the abnormal
  table the column \<open>B\<close> only. \<open>PetSite\<close> is absent from the aligned table, which has
  no column; the function raises ValueError instead of returning the empty list.
\<close>

theorem petsite_absent_raises:
  "''PetSite'' \<notin> set (common_columns ex_env ex_only_a ex_only_b)
   \<and> functional_analyze_root_causes ex_env () ''PetSite'' ''latency'' ''Average'' ex_only_a ex_only_b
     = ([MissingInAbnormal [''A''], MissingInNormal [''B'']], Inl ValueError)"
proof -
  have "common_columns ex_env ex_only_a ex_only_b = []" by code_simp
  then show ?thesis using ex_disjoint_eval by simp
qed

subsection \<open>An empty intersection\<close>

text \<open>
  C1, in the code. When the reduced tables have no column in common, the function
  prints its diagnostics (lines 36 to 39) and then raises ValueError: the aligned
  frame has no column, the scaler of line 48 rejects it, and the test of line 73,
  which would return the empty list, is not reached. It returns no list.
\<close>

theorem empty_intersection_always_raises:
  assumes "set (columns (reduce_df env normal_raw target_metric target_statistic))
             \<inter> set (columns (reduce_df env abnormal_raw target_metric target_statistic)) = {}"
  shows "functional_analyze_root_causes env graph target_node target_metric target_statistic
           normal_raw abnormal_raw
     = (diagnostics env (reduce_df env normal_raw target_metric target_statistic)
          (reduce_df env abnormal_raw target_metric target_statistic), Inl ValueError)"
proof -
  let ?n = "reduce_df env normal_raw target_metric target_statistic"
  let ?a = "reduce_df env abnormal_raw target_metric target_statistic"
  have "common_columns env ?n ?a = []"
    using assms common_columns_subset [of env ?n ?a] by simp
  from empty_intersection_raises [OF this] show ?thesis
    by (simp add: functional_analyze_root_causes_def)
qed

theorem empty_intersection_always_raises_witness:
  "set (columns ex_normal) \<inter> set (columns ex_only_c) = {}
   \<and> functional_analyze_root_causes ex_env () ''PetSite'' ''latency'' ''Average'' ex_normal ex_only_c
     = ([MissingInAbnormal [''A'', ''B'', ''PetSite''], MissingInNormal [''C'']], Inl ValueError)"
proof -
  have r: "reduce_df ex_env t m s = t" for t m s by (simp add: ex_env_def)
  have d: "set (columns (reduce_df ex_env ex_normal ''latency'' ''Average''))
      \<inter> set (columns (reduce_df ex_env ex_only_c ''latency'' ''Average'')) = {}"
    by (simp add: r columns_def ex_normal_def ex_only_c_def)
  have p: "diagnostics ex_env ex_normal ex_only_c
      = [MissingInAbnormal [''A'', ''B'', ''PetSite''], MissingInNormal [''C'']]"
    by code_simp
  from empty_intersection_always_raises [OF d, of "()" "''PetSite''"] d p show ?thesis
    by (simp add: r)
qed

text \<open>
  Each diagnostic is printed under its own test: when one of the tables has no
  column, one diagnostic is printed.
\<close>

lemma no_columns_example:
  "functional_analyze_root_causes ex_env () ''PetSite'' ''latency'' ''Average'' ex_only_a ex_no_columns
     = ([MissingInAbnormal [''A'']], Inl ValueError)"
  by code_simp

subsection \<open>Well-formed windows\<close>

text \<open>
  The window of two well-formed tables is well formed: every column of it has one
  value per row, so \<open>vs ! 0\<close> and \<open>vs ! (nrows w - 1)\<close> are the values of its first
  and of its last row.
\<close>

lemma values_or_nan_length: "wf_table t \<Longrightarrow> length (values_or_nan t c) = nrows t"
proof (cases "map_of (cols t) c")
  case None
  then show ?thesis by (simp add: values_or_nan_def)
next
  case (Some vs)
  assume "wf_table t"
  moreover from Some have "(c, vs) \<in> set (cols t)" by (rule map_of_SomeD)
  ultimately have "length vs = nrows t" by (auto simp: wf_table_def list_all_iff)
  with Some show ?thesis by (simp add: values_or_nan_def)
qed

lemma loc_cols_wf:
  assumes "wf_table t" and "distinct cs" and "loc_cols t cs = Inr t'"
  shows "wf_table t'"
proof -
  have "length vs = nrows t" if "(c, vs) \<in> set (cols t')" for c vs
    using loc_cols_values [OF assms(3) that] assms(1) by (auto simp: wf_table_def list_all_iff)
  then show ?thesis
    using columns_loc_cols [OF assms(3)] assms(2) by (auto simp: wf_table_def list_all_iff)
qed

lemma pd_concat_wf:
  assumes "wf_table a" and "wf_table b"
  shows "wf_table (pd_concat a b)"
proof -
  have "distinct (columns (pd_concat a b))"
    using assms by (auto simp: columns_pd_concat wf_table_def)
  moreover have "list_all (\<lambda>cv. length (snd cv) = nrows (pd_concat a b)) (cols (pd_concat a b))"
    using values_or_nan_length [OF assms(1)] values_or_nan_length [OF assms(2)]
    by (auto simp: pd_concat_def list_all_iff)
  ultimately show ?thesis by (simp add: wf_table_def)
qed

lemma fit_transform_wf:
  assumes "wf_table t" and "fit_transform t = Inr t'"
  shows "wf_table t'"
  using assms fit_transform_shape [OF assms(2)] fit_transform_cols [OF assms(2)]
  by (auto simp: wf_table_def list_all_iff scale_column_def Let_def)

lemma tail_wf: "wf_table t \<Longrightarrow> wf_table (tail n t)"
proof -
  assume t: "wf_table t"
  then have "distinct (columns (tail n t))" by (simp add: columns_tail wf_table_def)
  moreover have "list_all (\<lambda>cv. length (snd cv) = nrows (tail n t)) (cols (tail n t))"
    using t by (auto simp: wf_table_def tail_def list_all_iff)
  ultimately show ?thesis by (simp add: wf_table_def)
qed

lemma window_wf:
  assumes "wf_table normal" and "wf_table abnormal"
    and "window env normal abnormal = Inr w"
  shows "wf_table w"
proof -
  let ?cs = "common_columns env normal abnormal"
  from assms(3) obtain n a r where
    n: "loc_cols normal ?cs = Inr n" and a: "loc_cols abnormal ?cs = Inr a"
    and r: "fit_transform (pd_concat n a) = Inr r" and w: "w = tail 5 r"
    by (auto simp: window_def Let_def split: sum.splits)
  have d: "distinct ?cs" by (simp add: common_columns_def distinct_set_list)
  from loc_cols_wf [OF assms(1) d n] loc_cols_wf [OF assms(2) d a]
  have "wf_table (pd_concat n a)" by (rule pd_concat_wf)
  from fit_transform_wf [OF this r] w show ?thesis by (simp add: tail_wf)
qed

end
